theory Spec2Isabelle
  imports Complex_Main "HOL-Library.Sublist"
begin

section \<open>JavaScript string primitives\<close>

text \<open>
  A JavaScript string is modelled as a \<^typ>\<open>string\<close>: a list of code units, each one a
  \<^typ>\<open>char\<close>. \<open>length\<close>, \<open>take\<close> and \<open>drop\<close> count code units, as \<open>String.prototype.length\<close>
  and \<open>substring\<close> do. A string is truthy exactly when it is not empty.
\<close>

text \<open>
  \<open>firstIndex p s\<close> scans \<open>s\<close> from the left for the first position where \<open>p\<close> starts.
  \<open>s.indexOf(p)\<close> is that position, or \<open>-1\<close>; \<open>s.includes(p)\<close> says whether there is one.
\<close>

fun firstIndex :: "string \<Rightarrow> string \<Rightarrow> nat option" where
  "firstIndex p [] = (if p = [] then Some 0 else None)"
| "firstIndex p (c # cs) =
     (if prefix p (c # cs) then Some 0 else map_option Suc (firstIndex p cs))"

definition indexOf :: "string \<Rightarrow> string \<Rightarrow> int" where
  "indexOf s p = (case firstIndex p s of None \<Rightarrow> - 1 | Some i \<Rightarrow> int i)"

definition includes_str :: "string \<Rightarrow> string \<Rightarrow> bool" where
  "includes_str s p = (firstIndex p s \<noteq> None)"

text \<open>
  \<open>s.substring(a, b)\<close>: both indices are clamped to \<open>[0, length]\<close> and swapped when
  \<open>a > b\<close>; \<open>s.substring(a)\<close> runs to the end of the string.
\<close>

definition clampIndex :: "string \<Rightarrow> int \<Rightarrow> nat" where
  "clampIndex s a = nat (max 0 (min a (int (length s))))"

definition substring :: "string \<Rightarrow> int \<Rightarrow> int \<Rightarrow> string" where
  "substring s a b =
     (let lo = min (clampIndex s a) (clampIndex s b);
          hi = max (clampIndex s a) (clampIndex s b)
      in take (hi - lo) (drop lo s))"

definition substringFrom :: "string \<Rightarrow> int \<Rightarrow> string" where
  "substringFrom s a = drop (clampIndex s a) s"

text \<open>
  \<open>s.trim()\<close> removes white space from both ends. Of JavaScript's white space only the
  six ASCII characters (tab, line feed, vertical tab, form feed, carriage return, space)
  are told apart here.
\<close>

definition isWhiteSpace :: "char \<Rightarrow> bool" where
  "isWhiteSpace c = (c \<in> set [CHR 0x09, CHR 0x0A, CHR 0x0B, CHR 0x0C, CHR 0x0D, CHR 0x20])"

definition trim :: "string \<Rightarrow> string" where
  "trim s = rev (dropWhile isWhiteSpace (rev (dropWhile isWhiteSpace s)))"

text \<open>
  \<open>String(n)\<close> for an integral number: its decimal digits, with a minus sign when negative
  (the exponent notation JavaScript switches to from \<open>1e21\<close> on is not modelled).
\<close>

fun digits :: "nat \<Rightarrow> string" where
  "digits n =
     (if n < 10 then [char_of (48 + n)] else digits (n div 10) @ [char_of (48 + n mod 10)])"

definition numberToString :: "int \<Rightarrow> string" where
  "numberToString i = (if i < 0 then ''-'' @ digits (nat (- i)) else digits (nat i))"

text \<open>\<open>xs.join(sep)\<close> on an array of strings.\<close>

fun join :: "string \<Rightarrow> string list \<Rightarrow> string" where
  "join sep [] = []"
| "join sep [x] = x"
| "join sep (x # y # ys) = x @ sep @ join sep (y # ys)"

section \<open>Configuration and posts\<close>

text \<open>
  The object \<open>ConfigHelper.getConfig\<close> builds. The numeric options come from \<open>parseInt\<close>;
  they are integers here. The string options are always strings there (each has a
  default), so none of them is optional.
\<close>

record config =
  publicationName :: string
  postCount :: int
  displayFormat :: string
  filename :: string
  githubToken :: string
  cardWidth :: int
  imageWidth :: int
  imageHeight :: int
  dateFormat :: string
  descriptionLength :: int
  customCss :: string
  sectionTitle :: string
  noPostsMessage :: string
  targetBranch :: string

text \<open>
  The object \<open>HashnodeService.transformPost\<close> builds for one post. Every field the
  formatter reads is a string there (\<open>description\<close> and \<open>coverImage\<close> default to the
  empty string).
\<close>

record author =
  name :: string
  username :: string

record tag =
  tag_name :: string
  tag_slug :: string

record post =
  post_id :: string
  title :: string
  description :: string
  slug :: string
  url :: string
  publishedAt :: "string option"
  formattedDate :: string
  coverImage :: string
  post_author :: author
  tags :: "tag list"
  readTime :: int


section \<open>BlogController.updateFileContent\<close>

definition sectionStart :: string where
  "sectionStart = ''<!-- BLOG-POSTS:START -->''"

definition sectionEnd :: string where
  "sectionEnd = ''<!-- BLOG-POSTS:END -->''"

text \<open>The local constant \<open>fullSection\<close> of \<open>updateFileContent\<close>.\<close>

definition fullSection :: "config \<Rightarrow> string \<Rightarrow> string" where
  "fullSection cfg newContent =
     sectionStart @ ''\<newline>'' @
     (if sectionTitle cfg \<noteq> [] then ''## '' @ sectionTitle cfg @ ''\<newline>\<newline>'' else []) @
     newContent @ ''\<newline>'' @ sectionEnd"

definition updateFileContent :: "config \<Rightarrow> string \<Rightarrow> string \<Rightarrow> string" where
  "updateFileContent cfg currentContent newContent =
     (if includes_str currentContent sectionStart \<and> includes_str currentContent sectionEnd
      then
        (let beforeSection = substring currentContent 0 (indexOf currentContent sectionStart);
             afterSection = substringFrom currentContent
               (indexOf currentContent sectionEnd + int (length sectionEnd))
         in beforeSection @ fullSection cfg newContent @ afterSection)
      else currentContent @ ''\<newline>\<newline>'' @ fullSection cfg newContent @ ''\<newline>'')"

section \<open>TemplateHelper.escapeHtml\<close>

text \<open>The table \<open>htmlEscapes\<close>, applied to every match of \<open>/[&<>"']/g\<close>.\<close>

definition htmlEscapes :: "char \<Rightarrow> string" where
  "htmlEscapes c =
     (if c = CHR ''&'' then ''&amp;''
      else if c = CHR ''<'' then ''&lt;''
      else if c = CHR ''>'' then ''&gt;''
      else if c = CHR 0x22 then ''&quot;''
      else if c = CHR 0x27 then ''&#39;''
      else [c])"

definition escapeHtml :: "string \<Rightarrow> string" where
  "escapeHtml text = concat (map htmlEscapes text)"

section \<open>TemplateService\<close>

definition placeholderImage :: string where
  "placeholderImage = ''https://via.placeholder.com/400x200/4F46E5/FFFFFF?text=Blog+Post''"

text \<open>
  \<open>processPost\<close> as a function of values: the copy \<open>{ ...post }\<close> with the two
  assignments applied. (The same method with the copy made in an explicit object store is
  \<open>processPost_heap\<close> below.)
\<close>

definition processPost :: "post \<Rightarrow> config \<Rightarrow> post" where
  "processPost p cfg =
     (let processed = p;
          processed =
            (if description processed \<noteq> [] \<and>
                int (length (description processed)) > descriptionLength cfg
             then processed\<lparr>description :=
                    substring (description processed) 0 (descriptionLength cfg) @ ''...''\<rparr>
             else processed);
          processed =
            (if coverImage processed = [] then processed\<lparr>coverImage := placeholderImage\<rparr>
             else processed)
      in processed)"

text \<open>The arrow function of \<open>generateCards\<close>, and the method.\<close>

definition cardOf :: "config \<Rightarrow> post \<Rightarrow> string" where
  \<open>cardOf cfg post = trim (
       ''\<newline>'' @
       ''<div style="border: 1px solid #e1e5e9; border-radius: 8px; padding: 16px; margin: 16px 0; max-width: '' @ numberToString (cardWidth cfg) @ ''px; '' @ customCss cfg @ ''">\<newline>'' @
       ''  <img src="'' @ coverImage post @ ''" alt="'' @ title post @ ''" style="width: 100%; height: 200px; object-fit: cover; border-radius: 6px; margin-bottom: 12px;" />\<newline>'' @
       ''  <h3 style="margin: 0 0 8px 0; font-size: 18px;">\<newline>'' @
       ''    <a href="'' @ url post @ ''" style="text-decoration: none; color: #1a1a1a;">'' @ title post @ ''</a>\<newline>'' @
       ''  </h3>\<newline>'' @
       ''  <p style="margin: 0 0 8px 0; color: #6b7280; font-size: 14px;">'' @ formattedDate post @ ''</p>\<newline>'' @
       ''  <p style="margin: 0; color: #4b5563; font-size: 14px; line-height: 1.5;">'' @ description post @ ''</p>\<newline>'' @
       ''</div>'')\<close>

definition generateCards :: "post list \<Rightarrow> config \<Rightarrow> string" where
  "generateCards posts cfg = join ''\<newline>\<newline>'' (map (cardOf cfg) posts)"

text \<open>The arrow function of \<open>generateStackedCards\<close>, and the method.\<close>

definition stackedCardOf :: "config \<Rightarrow> string \<Rightarrow> post \<Rightarrow> string" where
  \<open>stackedCardOf cfg imagePosition post =
     (let imageElement =
       ''<img src="'' @ coverImage post @ ''" alt="'' @ title post @ ''" style="width: '' @ numberToString (imageWidth cfg) @ ''px; height: '' @ numberToString (imageHeight cfg) @ ''px; object-fit: cover; border-radius: 6px;" />'';
          contentElement = trim (
       ''\<newline>'' @
       ''<div style="flex: 1;">\<newline>'' @
       ''  <h3 style="margin: 0 0 4px 0; font-size: 16px;">\<newline>'' @
       ''    <a href="'' @ url post @ ''" style="text-decoration: none; color: #1a1a1a;">'' @ title post @ ''</a>\<newline>'' @
       ''  </h3>\<newline>'' @
       ''  <p style="margin: 0 0 4px 0; color: #6b7280; font-size: 12px;">'' @ formattedDate post @ ''</p>\<newline>'' @
       ''  <p style="margin: 0; color: #4b5563; font-size: 13px; line-height: 1.4;">'' @ description post @ ''</p>\<newline>'' @
       ''</div>'');
          flexDirection = (if imagePosition = ''left'' then ''row'' else ''row-reverse'');
          gap = (if imagePosition = ''left'' then ''0 12px 0 0'' else ''0 0 0 12px'')
      in trim (
       ''\<newline>'' @
       ''<div style="display: flex; flex-direction: '' @ flexDirection @ ''; align-items: flex-start; padding: 12px; border: 1px solid #e1e5e9; border-radius: 8px; margin: 8px 0; '' @ customCss cfg @ ''">\<newline>'' @
       ''  <div style="margin: '' @ gap @ '';">\<newline>'' @
       ''    '' @ imageElement @ ''\<newline>'' @
       ''  </div>\<newline>'' @
       ''  '' @ contentElement @ ''\<newline>'' @
       ''</div>''))\<close>

definition generateStackedCards :: "post list \<Rightarrow> config \<Rightarrow> string \<Rightarrow> string" where
  "generateStackedCards posts cfg imagePosition =
     join ''\<newline>\<newline>'' (map (stackedCardOf cfg imagePosition) posts)"

text \<open>The arrow function of \<open>generateList\<close>, and the method.\<close>

definition listItemOf :: "post \<Rightarrow> string" where
  "listItemOf post =
       ''- **'' @ formattedDate post @ ''**: ['' @ title post @ '']('' @ url post @ '')''"

definition generateList :: "post list \<Rightarrow> config \<Rightarrow> string" where
  "generateList posts cfg = join ''\<newline>'' (map listItemOf posts)"

text \<open>
  \<open>generateTable\<close>: its constants, the arrow function that builds one row, and the
  method. The array \<open>rows\<close> is interpolated as it is, so its elements are joined by commas.
\<close>

definition thStyle :: string where
  "thStyle = ''border: 1px solid #e1e5e9; padding: 12px; text-align: left; background-color: #f8f9fa; font-weight: 600;''"

definition tdStyle :: string where
  "tdStyle = ''border: 1px solid #e1e5e9; padding: 12px; vertical-align: top;''"

definition headerRow :: string where
  \<open>headerRow =
       ''<tr>\<newline>'' @
       ''        <th style="'' @ thStyle @ ''">Date</th>\<newline>'' @
       ''        <th style="'' @ thStyle @ ''">Image</th>\<newline>'' @
       ''        <th style="'' @ thStyle @ ''">Title & Description</th>\<newline>'' @
       ''      </tr>''\<close>

definition tableRowOf :: "config \<Rightarrow> post \<Rightarrow> string" where
  \<open>tableRowOf cfg post =
     (let imageCell =
       ''<img src="'' @ coverImage post @ ''" alt="'' @ title post @ ''" style="width: '' @ numberToString (imageWidth cfg) @ ''px; height: '' @ numberToString (imageHeight cfg) @ ''px; object-fit: cover; border-radius: 4px;" />'';
          titleCell =
       ''<a href="'' @ url post @ ''" style="text-decoration: none; color: #1a1a1a; font-weight: 600;">'' @ title post @ ''</a><br/><span style="color: #6b7280; font-size: 14px;">'' @ description post @ ''</span>''
      in
       ''<tr>\<newline>'' @
       ''          <td style="'' @ tdStyle @ ''">'' @ formattedDate post @ ''</td>\<newline>'' @
       ''          <td style="'' @ tdStyle @ ''">'' @ imageCell @ ''</td>\<newline>'' @
       ''          <td style="'' @ tdStyle @ ''">'' @ titleCell @ ''</td>\<newline>'' @
       ''        </tr>'')\<close>

definition generateTable :: "post list \<Rightarrow> config \<Rightarrow> string" where
  \<open>generateTable posts cfg =
     (let tableStyle =
       ''border-collapse: collapse; width: 100%; margin: 16px 0; '' @ customCss cfg;
          rows = map (tableRowOf cfg) posts
      in trim (
       ''<table style="'' @ tableStyle @ ''">\<newline>'' @
       ''  <thead>\<newline>'' @
       ''    '' @ headerRow @ ''\<newline>'' @
       ''  </thead>\<newline>'' @
       ''  <tbody>\<newline>'' @
       ''    '' @ join '','' rows @ ''\<newline>'' @
       ''  </tbody>\<newline>'' @
       ''</table>''))\<close>

text \<open>
  The layouts after the posts are processed: the \<open>switch\<close> of \<open>generateContent\<close>. The
  logger calls write to the log only and are left out.
\<close>

definition renderProcessed :: "post list \<Rightarrow> config \<Rightarrow> string" where
  "renderProcessed processedPosts cfg =
     (if displayFormat cfg = ''card'' then generateCards processedPosts cfg
      else if displayFormat cfg = ''stacked-left''
        then generateStackedCards processedPosts cfg ''left''
      else if displayFormat cfg = ''stacked-right''
        then generateStackedCards processedPosts cfg ''right''
      else if displayFormat cfg = ''list'' then generateList processedPosts cfg
      else if displayFormat cfg = ''table'' then generateTable processedPosts cfg
      else generateStackedCards processedPosts cfg ''left'')"

definition generateContent :: "post list \<Rightarrow> config \<Rightarrow> string" where
  "generateContent posts cfg =
     (if posts = []
      then (if noPostsMessage cfg \<noteq> [] then noPostsMessage cfg else ''No blog posts found.'')
      else renderProcessed (map (\<lambda>p. processPost p cfg) posts) cfg)"

section \<open>TemplateService over an object store\<close>

text \<open>
  JavaScript objects are mutable and shared by reference. To say what \<open>processPost\<close> and
  \<open>generateContent\<close> do to the objects they are given, the post objects live in a store:
  a list of objects, a reference being an index into it. \<open>{ ...post }\<close> allocates a new
  object with the fields of \<open>post\<close>; the two assignments of \<open>processPost\<close> write to that
  new object. The nested \<open>author\<close> and \<open>tags\<close> values are shared by the copy, and no code
  on this path writes to them. The layout methods only read the processed objects.
\<close>

type_synonym heap = "post list"

definition allocate :: "heap \<Rightarrow> post \<Rightarrow> nat \<times> heap" where
  "allocate h obj = (length h, h @ [obj])"

definition processPost_heap :: "heap \<Rightarrow> nat \<Rightarrow> config \<Rightarrow> nat \<times> heap" where
  "processPost_heap h postRef cfg =
     (let (processed, h) = allocate h (h ! postRef);
          h = (if description (h ! processed) \<noteq> [] \<and>
                  int (length (description (h ! processed))) > descriptionLength cfg
               then h[processed := (h ! processed)\<lparr>description :=
                      substring (description (h ! processed)) 0 (descriptionLength cfg) @ ''...''\<rparr>]
               else h);
          h = (if coverImage (h ! processed) = []
               then h[processed := (h ! processed)\<lparr>coverImage := placeholderImage\<rparr>]
               else h)
      in (processed, h))"

fun mapProcessPost :: "heap \<Rightarrow> nat list \<Rightarrow> config \<Rightarrow> nat list \<times> heap" where
  "mapProcessPost h [] cfg = ([], h)"
| "mapProcessPost h (r # rs) cfg =
     (let (r', h) = processPost_heap h r cfg;
          (rs', h) = mapProcessPost h rs cfg
      in (r' # rs', h))"

definition generateContent_heap :: "heap \<Rightarrow> nat list \<Rightarrow> config \<Rightarrow> string \<times> heap" where
  "generateContent_heap h posts cfg =
     (if posts = []
      then (if noPostsMessage cfg \<noteq> [] then noPostsMessage cfg else ''No blog posts found.'', h)
      else (let (processedPosts, h) = mapProcessPost h posts cfg
            in (renderProcessed (map (\<lambda>r. h ! r) processedPosts) cfg, h)))"

section \<open>JavaScript values and numbers\<close>

text \<open>
  A JavaScript number is \<open>NaN\<close>, an infinity or a finite double. A finite double is a
  rational number, and \<open><\<close>, \<open>>\<close> and \<open>Number.isInteger\<close> are exact on doubles, so a finite
  number is given by its value.
\<close>

datatype jsnumber = NaN | PosInfinity | NegInfinity | Finite rat

datatype jsvalue =
  JUndefined | JNull | JBoolean bool | JNumber jsnumber | JString string | JObject

fun numLess :: "jsnumber \<Rightarrow> jsnumber \<Rightarrow> bool" where
  "numLess NaN _ = False"
| "numLess _ NaN = False"
| "numLess (Finite a) (Finite b) = (a < b)"
| "numLess NegInfinity NegInfinity = False"
| "numLess NegInfinity _ = True"
| "numLess PosInfinity PosInfinity = False"
| "numLess _ PosInfinity = True"
| "numLess _ _ = False"

fun isInteger :: "jsnumber \<Rightarrow> bool" where
  "isInteger (Finite q) = (of_int \<lfloor>q\<rfloor> = q)"
| "isInteger _ = False"

text \<open>Truthiness, as \<open>!x\<close> and \<open>if (x)\<close> read a value.\<close>

fun truthy :: "jsvalue \<Rightarrow> bool" where
  "truthy JUndefined = False"
| "truthy JNull = False"
| "truthy (JBoolean b) = b"
| "truthy (JNumber n) = (n \<noteq> NaN \<and> n \<noteq> Finite 0)"
| "truthy (JString s) = (s \<noteq> [])"
| "truthy JObject = True"

section \<open>ValidationHelper.validatePostCount\<close>

text \<open>A \<open>throw new Error(msg)\<close> is the value \<open>Inl msg\<close>; returning normally is \<open>Inr ()\<close>.\<close>

definition validatePostCount :: "jsvalue \<Rightarrow> string + unit" where
  "validatePostCount postCountValue =
     (case postCountValue of
        JNumber n \<Rightarrow>
          (if n = NaN then Inl ''Post count must be a valid number''
           else if numLess n (Finite 1) then Inl ''Post count must be at least 1''
           else if numLess (Finite 12) n then Inl ''Post count cannot exceed 12''
           else if \<not> isInteger n then Inl ''Post count must be an integer''
           else Inr ())
      | _ \<Rightarrow> Inl ''Post count must be a valid number'')"

section \<open>DateHelper.formatDate\<close>

text \<open>
  The moment library is not part of the repository; the operations \<open>DateHelper\<close> calls are
  parameters. Each may throw (\<open>Inl\<close>). \<open>diffNow m unit\<close> stands for
  \<open>moment().diff(m, unit)\<close>, which reads the clock.
\<close>

record ('m, 'e) momentLib =
  moment :: "jsvalue \<Rightarrow> 'e + 'm"
  isValid :: "'m \<Rightarrow> 'e + bool"
  format :: "'m \<Rightarrow> string \<Rightarrow> 'e + string"
  diffNow :: "'m \<Rightarrow> string \<Rightarrow> 'e + int"

definition bindE :: "'e + 'a \<Rightarrow> ('a \<Rightarrow> 'e + 'b) \<Rightarrow> 'e + 'b" where
  "bindE r f = (case r of Inl e \<Rightarrow> Inl e | Inr x \<Rightarrow> f x)"

definition getRelativeTime :: "('m, 'e) momentLib \<Rightarrow> 'm \<Rightarrow> 'e + string" where
  "getRelativeTime lib momentDate =
     bindE (diffNow lib momentDate ''days'') (\<lambda>diffInDays.
     bindE (diffNow lib momentDate ''hours'') (\<lambda>diffInHours.
     bindE (diffNow lib momentDate ''minutes'') (\<lambda>diffInMinutes.
     bindE (diffNow lib momentDate ''weeks'') (\<lambda>diffInWeeks.
     bindE (diffNow lib momentDate ''months'') (\<lambda>diffInMonths.
     bindE (diffNow lib momentDate ''years'') (\<lambda>diffInYears.
       Inr (if diffInMinutes < 60
            then (if diffInMinutes \<le> 1 then ''Just now''
                  else numberToString diffInMinutes @ '' minutes ago'')
            else if diffInHours < 24
            then (if diffInHours = 1 then ''1 hour ago''
                  else numberToString diffInHours @ '' hours ago'')
            else if diffInDays < 7
            then (if diffInDays = 1 then ''1 day ago''
                  else numberToString diffInDays @ '' days ago'')
            else if diffInWeeks < 4
            then (if diffInWeeks = 1 then ''1 week ago''
                  else numberToString diffInWeeks @ '' weeks ago'')
            else if diffInMonths < 12
            then (if diffInMonths = 1 then ''1 month ago''
                  else numberToString diffInMonths @ '' months ago'')
            else (if diffInYears = 1 then ''1 year ago''
                  else numberToString diffInYears @ '' years ago''))))))))"

text \<open>The body of the \<open>try\<close> block of \<open>formatDate\<close>.\<close>

definition formatDate_try :: "('m, 'e) momentLib \<Rightarrow> jsvalue \<Rightarrow> string \<Rightarrow> 'e + string" where
  "formatDate_try lib date fmt =
     bindE (moment lib date) (\<lambda>momentDate.
     bindE (isValid lib momentDate) (\<lambda>valid.
       if \<not> valid then Inr ''Invalid date''
       else if fmt = ''relative'' then getRelativeTime lib momentDate
       else format lib momentDate fmt))"

text \<open>
  \<open>formatDate(date, format)\<close>; the caller passes \<open>'MMM DD, YYYY'\<close> where the source leaves
  the second argument out. An exception that leaves the method would be \<open>Inl\<close>.
\<close>

definition formatDate :: "('m, 'e) momentLib \<Rightarrow> jsvalue \<Rightarrow> string \<Rightarrow> 'e + string" where
  "formatDate lib date fmt =
     (if \<not> truthy date then Inr ''Unknown date''
      else (case formatDate_try lib date fmt of
              Inl error \<Rightarrow> Inr ''Error formatting date''
            | Inr s \<Rightarrow> Inr s))"

section \<open>Example inputs\<close>

definition exampleConfig :: config where
  "exampleConfig =
     \<lparr>publicationName = ''blog.example.dev'', postCount = 6, displayFormat = ''stacked-left'',
      filename = ''README.md'', githubToken = ''t'', cardWidth = 500, imageWidth = 100,
      imageHeight = 100, dateFormat = ''MMM DD, YYYY'', descriptionLength = 200,
      customCss = [], sectionTitle = ''Latest Blog Posts'',
      noPostsMessage = ''No blog posts found.'', targetBranch = ''main''\<rparr>"

definition examplePost :: post where
  "examplePost =
     \<lparr>post_id = ''1'', title = ''A'', description = ''abcdef'', slug = ''a'',
      url = ''https://blog.example.dev/a'', publishedAt = Some ''2024-01-15T00:00:00.000Z'',
      formattedDate = ''Jan 15, 2024'', coverImage = [],
      post_author = \<lparr>name = ''Unknown Author'', username = []\<rparr>, tags = [], readTime = 0\<rparr>"

text \<open>A post whose title and description hold markup.\<close>

definition scriptPost :: post where
  "scriptPost = examplePost\<lparr>title := ''<script>alert(1)</script>'',
     description := ''<img src=x onerror=alert(2)>''\<rparr>"

text \<open>A document with one delimited section between other text.\<close>

definition exampleDocument :: string where
  "exampleDocument = ''# Readme'' @ sectionStart @ ''old posts'' @ sectionEnd @ ''footer''"

text \<open>A stand-in for the moment library that accepts ISO-like strings of ten characters or more.\<close>

definition exampleMoment :: "(string, unit) momentLib" where
  "exampleMoment =
     \<lparr>moment = (\<lambda>v. case v of JString s \<Rightarrow> Inr s | _ \<Rightarrow> Inr []),
      isValid = (\<lambda>m. Inr (10 \<le> length m)),
      format = (\<lambda>m f. Inr (take 10 m)),
      diffNow = (\<lambda>m u. Inr 0)\<rparr>"

section \<open>Facts about the string primitives\<close>

lemma firstIndex_None_iff: "firstIndex p s = None \<longleftrightarrow> \<not> sublist p s"
  by (induction s) (auto simp: sublist_Cons_right)

lemma includes_str_iff_sublist: "includes_str s p \<longleftrightarrow> sublist p s"
  by (simp add: includes_str_def firstIndex_None_iff)

lemma sublist_sectionStart_fullSection: "sublist sectionStart (P @ fullSection cfg new @ Q)"
  unfolding fullSection_def by (metis append.assoc sublist_appendI)

lemma sublist_sectionEnd_fullSection: "sublist sectionEnd (P @ fullSection cfg new @ Q)"
proof -
  obtain b where "fullSection cfg new = b @ sectionEnd"
    unfolding fullSection_def by (metis append.assoc)
  then have "P @ fullSection cfg new @ Q = (P @ b) @ sectionEnd @ Q"
    by simp
  then show ?thesis
    by (metis sublist_appendI)
qed

lemma updateFileContent_shape:
  "\<exists>P Q. updateFileContent cfg doc new = P @ fullSection cfg new @ Q"
proof (cases "includes_str doc sectionStart \<and> includes_str doc sectionEnd")
  case True
  then have "updateFileContent cfg doc new =
      substring doc 0 (indexOf doc sectionStart) @ fullSection cfg new @
      substringFrom doc (indexOf doc sectionEnd + int (length sectionEnd))"
    by (simp add: updateFileContent_def Let_def)
  then show ?thesis
    by blast
next
  case False
  then have "updateFileContent cfg doc new =
      (doc @ ''\<newline>\<newline>'') @ fullSection cfg new @ ''\<newline>''"
    by (auto simp: updateFileContent_def)
  then show ?thesis
    by blast
qed

section \<open>Searching for the markers\<close>

lemma sublist_sep_right:
  assumes "c \<notin> set (tl p)"
  shows "sublist p (A @ c # B) \<longleftrightarrow> sublist p A \<or> sublist p (c # B)"
proof
  assume "sublist p (A @ c # B)"
  then consider "sublist p A" | "sublist p (c # B)"
    | p1 p2 where "p = p1 @ p2" "suffix p1 A" "prefix p2 (c # B)"
    unfolding sublist_append by blast
  then show "sublist p A \<or> sublist p (c # B)"
  proof cases
    case 3
    show ?thesis
    proof (cases "p1 = []")
      case True
      with 3 show ?thesis by auto
    next
      case False
      note p1 = this
      show ?thesis
      proof (cases p2)
        case Nil
        with 3 show ?thesis by auto
      next
        case (Cons d p2')
        with 3 have "d = c" by simp
        with Cons 3 p1 have "c \<in> set (tl p)" by (cases p1) auto
        with assms show ?thesis by simp
      qed
    qed
  qed auto
next
  assume "sublist p A \<or> sublist p (c # B)"
  then show "sublist p (A @ c # B)"
    by (auto simp: sublist_append)
qed

lemma sublist_sep_left:
  assumes "c \<notin> set (butlast p)"
  shows "sublist p (A @ c # B) \<longleftrightarrow> sublist p (A @ [c]) \<or> sublist p B"
proof -
  have "c \<notin> set (tl (rev p))"
    using assms by (cases p rule: rev_cases) auto
  then have mid: "sublist (rev p) (rev B @ c # rev A) \<longleftrightarrow>
      sublist (rev p) (rev B) \<or> sublist (rev p) (c # rev A)"
    by (rule sublist_sep_right)
  have whole: "sublist (rev p) (rev B @ c # rev A) \<longleftrightarrow> sublist p (A @ c # B)"
    using sublist_rev [of p "A @ c # B"] by simp
  have right: "sublist (rev p) (rev B) \<longleftrightarrow> sublist p B"
    by (rule sublist_rev)
  have left: "sublist (rev p) (c # rev A) \<longleftrightarrow> sublist p (A @ [c])"
    using sublist_rev [of p "A @ [c]"] by simp
  from mid whole right left show ?thesis
    by blast
qed

lemma sublist_sep:
  assumes "c \<notin> set p"
  shows "sublist p (A @ c # B) \<longleftrightarrow> sublist p A \<or> sublist p B"
proof -
  have "c \<notin> set (tl p)"
    using assms by (cases p) auto
  then have "sublist p (A @ c # B) \<longleftrightarrow> sublist p A \<or> sublist p (c # B)"
    by (rule sublist_sep_right)
  moreover have "sublist p (c # B) \<longleftrightarrow> sublist p B"
    using assms by (cases p) (auto simp: sublist_Cons_right)
  ultimately show ?thesis by simp
qed

lemma not_sublist_butlast: "p \<noteq> [] \<Longrightarrow> \<not> sublist p (butlast p)"
  using sublist_length_le [of p "butlast p"] by (cases p) auto

lemma firstIndex_first:
  assumes "p \<noteq> []" and "\<not> sublist p (X @ butlast p)"
  shows "firstIndex p (X @ p @ Y) = Some (length X)"
  using assms(2)
proof (induction X)
  case Nil
  from assms(1) obtain c cs where "p @ Y = c # cs"
    by (cases p) auto
  moreover have "prefix p (p @ Y)" by simp
  ultimately show ?case by simp
next
  case (Cons x X)
  have "\<not> prefix p (x # X @ p @ Y)"
  proof
    assume a: "prefix p (x # X @ p @ Y)"
    have b: "prefix (x # X @ butlast p) (x # X @ p @ Y)"
      using assms(1) by (simp add: prefixeq_butlast)
    have "length p \<le> length (x # X @ butlast p)"
      using assms(1) by simp
    with a b have "prefix p (x # X @ butlast p)"
      using prefix_length_prefix by blast
    with Cons.prems show False
      by auto
  qed
  moreover have "\<not> sublist p (X @ butlast p)"
    using Cons.prems by (auto simp: sublist_Cons_right)
  ultimately show ?case
    using Cons.IH by simp
qed

lemma firstIndex_SomeD:
  assumes "p \<noteq> []" and "firstIndex p s = Some i"
  shows "i \<le> length s \<and> prefix p (drop i s) \<and> \<not> sublist p (take i s @ butlast p)"
  using assms(2)
proof (induction s arbitrary: i)
  case Nil
  with assms(1) show ?case by simp
next
  case (Cons c cs)
  show ?case
  proof (cases "prefix p (c # cs)")
    case True
    with Cons.prems have "i = 0" by simp
    with True assms(1) show ?thesis
      by (simp add: not_sublist_butlast)
  next
    case False
    with Cons.prems obtain j where j: "firstIndex p cs = Some j" "i = Suc j"
      by auto
    from Cons.IH [OF j(1)] have ih: "j \<le> length cs" "prefix p (drop j cs)"
      "\<not> sublist p (take j cs @ butlast p)"
      by simp_all
    from ih(2) obtain Y where Y: "drop j cs = p @ Y"
      by (auto simp: prefix_def)
    have cs: "cs = take j cs @ p @ Y"
      using Y by (metis append_take_drop_id)
    have "\<not> prefix p (c # take j cs @ butlast p)"
    proof
      assume a: "prefix p (c # take j cs @ butlast p)"
      have "prefix (c # take j cs @ butlast p) (c # take j cs @ p @ Y)"
        by (simp add: prefixeq_butlast)
      with a have "prefix p (c # take j cs @ p @ Y)"
        using prefix_order.trans by blast
      with cs False show False by simp
    qed
    with ih j show ?thesis
      by (simp add: sublist_Cons_right)
  qed
qed


lemma indexOf_Some: "firstIndex p s = Some i \<Longrightarrow> indexOf s p = int i"
  by (simp add: indexOf_def)

lemma substring_0_nat: "substring s 0 (int i) = take i s"
  by (simp add: substring_def clampIndex_def Let_def min_def)

lemma substringFrom_nat: "substringFrom s (int i + int n) = drop (i + n) s"
proof -
  have "nat (int i + int n) = i + n"
    by (simp add: nat_add_distrib)
  then show ?thesis
    by (cases "i + n \<le> length s") (auto simp: substringFrom_def clampIndex_def min_def)
qed

text \<open>The shape of the two markers.\<close>

lemma markers_nonempty: "sectionStart \<noteq> []" "sectionEnd \<noteq> []"
  by (simp_all add: sectionStart_def sectionEnd_def)

lemma sectionStart_hd:
  "sectionStart = CHR ''<'' # tl sectionStart" "CHR ''<'' \<notin> set (tl sectionStart)"
  by (simp_all add: sectionStart_def)

lemma sectionStart_last:
  "sectionStart = butlast sectionStart @ [CHR ''>'']"
  by (simp add: sectionStart_def)

lemma sectionEnd_hd:
  "sectionEnd = CHR ''<'' # tl sectionEnd" "CHR ''<'' \<notin> set (tl sectionEnd)"
  by (simp_all add: sectionEnd_def)

lemma sectionEnd_butlast:
  "butlast sectionEnd = CHR ''<'' # tl (butlast sectionEnd)" "CHR ''>'' \<notin> set (butlast sectionEnd)"
  by (simp_all add: sectionEnd_def)

lemma sectionStart_butlast:
  "butlast sectionStart = CHR ''<'' # tl (butlast sectionStart)"
  by (simp add: sectionStart_def)

lemma newline_notin_markers:
  "CHR ''\<newline>'' \<notin> set sectionStart" "CHR ''\<newline>'' \<notin> set sectionEnd"
  by (simp_all add: sectionStart_def sectionEnd_def)

lemma sectionEnd_not_in_sectionStart: "\<not> sublist sectionEnd sectionStart"
  by (simp add: sectionStart_def sectionEnd_def sublist_Cons_right)

text \<open>Where the first start marker and the first end marker are.\<close>

lemma no_start_before:
  assumes "\<not> sublist sectionStart X"
  shows "\<not> sublist sectionStart (X @ butlast sectionStart)"
proof -
  have "sublist sectionStart (X @ CHR ''<'' # tl (butlast sectionStart)) \<longleftrightarrow>
      sublist sectionStart X \<or> sublist sectionStart (CHR ''<'' # tl (butlast sectionStart))"
    by (rule sublist_sep_right) (rule sectionStart_hd(2))
  then show ?thesis
    using assms not_sublist_butlast [OF markers_nonempty(1)] sectionStart_butlast by simp
qed

lemma no_end_before:
  assumes "\<not> sublist sectionEnd X"
  shows "\<not> sublist sectionEnd (X @ butlast sectionEnd)"
proof -
  have "sublist sectionEnd (X @ CHR ''<'' # tl (butlast sectionEnd)) \<longleftrightarrow>
      sublist sectionEnd X \<or> sublist sectionEnd (CHR ''<'' # tl (butlast sectionEnd))"
    by (rule sublist_sep_right) (rule sectionEnd_hd(2))
  then show ?thesis
    using assms not_sublist_butlast [OF markers_nonempty(2)] sectionEnd_butlast(1) by simp
qed

lemma no_end_across_start:
  "sublist sectionEnd (X @ sectionStart @ Z) \<longleftrightarrow> sublist sectionEnd X \<or> sublist sectionEnd Z"
proof -
  have "sublist sectionEnd (X @ CHR ''<'' # (tl sectionStart @ Z)) \<longleftrightarrow>
      sublist sectionEnd X \<or> sublist sectionEnd (CHR ''<'' # (tl sectionStart @ Z))"
    by (rule sublist_sep_right) (rule sectionEnd_hd(2))
  then have a: "sublist sectionEnd (X @ sectionStart @ Z) \<longleftrightarrow>
      sublist sectionEnd X \<or> sublist sectionEnd (sectionStart @ Z)"
    using sectionStart_hd(1) by (metis append_Cons)
  have "sublist sectionEnd (butlast sectionStart @ CHR ''>'' # Z) \<longleftrightarrow>
      sublist sectionEnd (butlast sectionStart @ [CHR ''>'']) \<or> sublist sectionEnd Z"
    by (rule sublist_sep_left) (rule sectionEnd_butlast(2))
  then have b: "sublist sectionEnd (sectionStart @ Z) \<longleftrightarrow> sublist sectionEnd Z"
    using sectionStart_last sectionEnd_not_in_sectionStart
    by (metis append_Cons append_Nil append_assoc)
  from a b show ?thesis by simp
qed

lemma updateFileContent_replace:
  assumes "\<not> sublist sectionStart (X @ butlast sectionStart)"
      and "\<not> sublist sectionEnd (X @ sectionStart @ M @ butlast sectionEnd)"
  shows "updateFileContent cfg (X @ sectionStart @ M @ sectionEnd @ Y) new =
         X @ fullSection cfg new @ Y"
proof -
  let ?doc = "X @ sectionStart @ M @ sectionEnd @ Y"
  have s: "firstIndex sectionStart ?doc = Some (length X)"
    using markers_nonempty(1) assms(1) by (rule firstIndex_first)
  have "firstIndex sectionEnd ((X @ sectionStart @ M) @ sectionEnd @ Y) =
      Some (length (X @ sectionStart @ M))"
    using markers_nonempty(2) assms(2) by (intro firstIndex_first) simp_all
  then have e: "firstIndex sectionEnd ?doc = Some (length X + length sectionStart + length M)"
    by (simp add: add.assoc)
  have before: "substring ?doc 0 (indexOf ?doc sectionStart) = X"
    by (simp add: indexOf_Some [OF s] substring_0_nat)
  have "substringFrom ?doc (int (length X + length sectionStart + length M) + int (length sectionEnd)) =
      drop (length X + length sectionStart + length M + length sectionEnd) ?doc"
    by (rule substringFrom_nat)
  then have after: "substringFrom ?doc (indexOf ?doc sectionEnd + int (length sectionEnd)) = Y"
    by (simp add: indexOf_Some [OF e])
  have "includes_str ?doc sectionStart" "includes_str ?doc sectionEnd"
    using s e by (simp_all add: includes_str_def)
  then show ?thesis
    using before after by (simp add: updateFileContent_def Let_def)
qed

lemma updateFileContent_append:
  assumes "\<not> includes_str doc sectionStart \<or> \<not> includes_str doc sectionEnd"
  shows "updateFileContent cfg doc new =
         doc @ ''\<newline>\<newline>'' @ fullSection cfg new @ ''\<newline>''"
  using assms by (auto simp: updateFileContent_def)


lemma fullSection_body:
  "fullSection cfg new =
     sectionStart @
     (''\<newline>'' @
      (if sectionTitle cfg \<noteq> [] then ''## '' @ sectionTitle cfg @ ''\<newline>\<newline>'' else []) @
      new @ ''\<newline>'') @
     sectionEnd"
  by (simp add: fullSection_def)

lemma no_end_in_heading:
  assumes "\<not> sublist sectionEnd (sectionTitle cfg)"
  shows "\<not> sublist sectionEnd
      (if sectionTitle cfg \<noteq> [] then ''## '' @ sectionTitle cfg @ ''\<newline>\<newline>'' else [])"
proof -
  have "sublist sectionEnd ((''## '' @ sectionTitle cfg) @ CHR ''\<newline>'' # ''\<newline>'') \<longleftrightarrow>
      sublist sectionEnd (''## '' @ sectionTitle cfg) \<or> sublist sectionEnd ''\<newline>''"
    by (rule sublist_sep) (rule newline_notin_markers(2))
  moreover have "\<not> sublist sectionEnd ''\<newline>''"
    by (simp add: sectionEnd_def sublist_Cons_right)
  moreover have "sublist sectionEnd (''## '' @ sectionTitle cfg) \<longleftrightarrow>
      sublist sectionEnd (sectionTitle cfg)"
    by (simp add: sublist_Cons_right) (simp add: sectionEnd_def)
  ultimately show ?thesis
    using assms markers_nonempty(2) by simp
qed

lemma no_end_in_body:
  assumes "\<not> sublist sectionEnd (sectionTitle cfg)" and "\<not> sublist sectionEnd new"
  shows "\<not> sublist sectionEnd
      ((''\<newline>'' @
        (if sectionTitle cfg \<noteq> [] then ''## '' @ sectionTitle cfg @ ''\<newline>\<newline>'' else []) @
        new @ ''\<newline>'') @ butlast sectionEnd)"
proof -
  let ?h = "if sectionTitle cfg \<noteq> [] then ''## '' @ sectionTitle cfg @ ''\<newline>\<newline>'' else []"
  have h: "\<not> sublist sectionEnd ?h"
    using assms(1) by (rule no_end_in_heading)
  have hn: "\<not> sublist sectionEnd (?h @ new)"
  proof (cases "sectionTitle cfg = []")
    case True
    with assms(2) show ?thesis by simp
  next
    case False
    have "sublist sectionEnd ((''## '' @ sectionTitle cfg @ ''\<newline>'') @ CHR ''\<newline>'' # new) \<longleftrightarrow>
        sublist sectionEnd (''## '' @ sectionTitle cfg @ ''\<newline>'') \<or> sublist sectionEnd new"
      by (rule sublist_sep) (rule newline_notin_markers(2))
    moreover have "sublist sectionEnd ((''## '' @ sectionTitle cfg) @ CHR ''\<newline>'' # []) \<longleftrightarrow>
        sublist sectionEnd (''## '' @ sectionTitle cfg) \<or> sublist sectionEnd []"
      by (rule sublist_sep) (rule newline_notin_markers(2))
    moreover have "sublist sectionEnd (''## '' @ sectionTitle cfg) \<longleftrightarrow>
        sublist sectionEnd (sectionTitle cfg)"
      by (simp add: sublist_Cons_right) (simp add: sectionEnd_def)
    ultimately show ?thesis
      using assms False markers_nonempty(2) by simp
  qed
  have "sublist sectionEnd ([] @ CHR ''\<newline>'' # ((?h @ new) @ ''\<newline>'' @ butlast sectionEnd)) \<longleftrightarrow>
      sublist sectionEnd [] \<or> sublist sectionEnd ((?h @ new) @ ''\<newline>'' @ butlast sectionEnd)"
    by (rule sublist_sep) (rule newline_notin_markers(2))
  moreover have "sublist sectionEnd ((?h @ new) @ CHR ''\<newline>'' # butlast sectionEnd) \<longleftrightarrow>
      sublist sectionEnd (?h @ new) \<or> sublist sectionEnd (butlast sectionEnd)"
    by (rule sublist_sep) (rule newline_notin_markers(2))
  ultimately show ?thesis
    using hn markers_nonempty(2) not_sublist_butlast [OF markers_nonempty(2)] by simp
qed

lemma first_markers_decompose:
  assumes s: "firstIndex sectionStart doc = Some i"
      and e: "firstIndex sectionEnd doc = Some j"
      and lt: "i < j"
  shows "\<exists>M Y. doc = take i doc @ sectionStart @ M @ sectionEnd @ Y \<and>
           j = i + length sectionStart + length M \<and>
           \<not> sublist sectionStart (take i doc @ butlast sectionStart) \<and>
           \<not> sublist sectionEnd (take i doc @ sectionStart @ M @ butlast sectionEnd)"
proof -
  from firstIndex_SomeD [OF markers_nonempty(1) s]
  have si: "i \<le> length doc" "prefix sectionStart (drop i doc)"
    "\<not> sublist sectionStart (take i doc @ butlast sectionStart)"
    by simp_all
  from firstIndex_SomeD [OF markers_nonempty(2) e]
  have ej: "j \<le> length doc" "prefix sectionEnd (drop j doc)"
    "\<not> sublist sectionEnd (take j doc @ butlast sectionEnd)"
    by simp_all
  from si(2) obtain R where R: "drop i doc = sectionStart @ R"
    by (auto simp: prefix_def)
  from ej(2) obtain Y where Y: "drop j doc = sectionEnd @ Y"
    by (auto simp: prefix_def)
  have dj: "drop j doc = drop (j - i) (sectionStart @ R)"
    using lt R by (metis add_diff_inverse_nat drop_drop less_imp_le_nat not_less add.commute)
  have far: "i + length sectionStart \<le> j"
  proof (rule ccontr)
    assume "\<not> i + length sectionStart \<le> j"
    then have k: "j - i < length sectionStart" "0 < j - i"
      using lt by simp_all
    then have "drop (j - i) (sectionStart @ R) = drop (j - i) sectionStart @ R"
      by simp
    with dj Y have eq: "drop (j - i) sectionStart @ R = sectionEnd @ Y"
      by simp
    from k have ne: "drop (j - i) sectionStart \<noteq> []"
      by simp
    then have "hd (drop (j - i) sectionStart) = hd sectionEnd"
      using eq markers_nonempty(2) by (metis hd_append2)
    then have "hd (drop (j - i) sectionStart) = CHR ''<''"
      using sectionEnd_hd(1) by (metis list.sel(1))
    moreover have "hd (drop (j - i) sectionStart) \<in> set (drop (j - i) sectionStart)"
      using ne by simp
    moreover have "set (drop (j - i) sectionStart) \<subseteq> set (drop 1 sectionStart)"
      using k(2) by (intro set_drop_subset_set_drop) simp
    ultimately have "CHR ''<'' \<in> set (tl sectionStart)"
      by (auto simp: drop_Suc)
    with sectionStart_hd(2) show False
      by simp
  qed
  define M where "M = take (j - i - length sectionStart) R"
  have "drop j doc = drop (j - i - length sectionStart) R"
    using dj far by simp
  with Y have RM: "R = M @ sectionEnd @ Y"
    unfolding M_def by (metis append_take_drop_id)
  have doc: "doc = take i doc @ sectionStart @ M @ sectionEnd @ Y"
    using R RM by (metis append_take_drop_id)
  have "length M = j - i - length sectionStart"
  proof -
    have "length doc = i + length sectionStart + length R"
      using R si(1) by (metis add.assoc length_append length_drop le_add_diff_inverse)
    moreover have "length doc = j + length (sectionEnd @ Y)"
      using Y ej(1) by (metis length_drop le_add_diff_inverse)
    ultimately have "j - i - length sectionStart \<le> length R"
      by simp
    then show ?thesis
      unfolding M_def by simp
  qed
  with far have j: "j = i + length sectionStart + length M"
    by simp
  have "take j doc = take i doc @ sectionStart @ M"
  proof -
    have "take j doc = take j ((take i doc @ sectionStart @ M) @ sectionEnd @ Y)"
      using doc by simp
    also have "\<dots> = take i doc @ sectionStart @ M"
      using j si(1) by simp
    finally show ?thesis .
  qed
  with ej(3) have "\<not> sublist sectionEnd (take i doc @ sectionStart @ M @ butlast sectionEnd)"
    by simp
  with doc j si(3) show ?thesis
    by blast
qed


lemma exampleDocument_markers:
  "includes_str exampleDocument sectionStart \<and> includes_str exampleDocument sectionEnd \<and>
   indexOf exampleDocument sectionStart < indexOf exampleDocument sectionEnd"
  by code_simp

lemma plain_text_markers:
  "\<not> includes_str ''# Readme'' sectionStart \<and> \<not> includes_str ''# Readme'' sectionEnd"
  by code_simp

lemma example_block_markers:
  "\<not> includes_str (sectionTitle exampleConfig) sectionEnd \<and> \<not> includes_str ''new posts'' sectionEnd"
  by code_simp

section \<open>The merged document always holds the new section\<close>

text \<open>
  Claim C9. Whatever the existing document, the rendered block and the section title, the
  text \<open>updateFileContent\<close> returns holds the whole new section as one contiguous piece:
  the start marker, a newline, the heading \<open>## title\<close> followed by an empty line when the
  title is not empty, the block, a newline and the end marker, in this order. So the
  returned text includes both markers, and a further call on it (with any block and
  title) goes into the replacing branch: it returns the text before the first start
  marker, the section built from the new block and title, and the text after the first
  end marker.
\<close>

theorem updateFileContent_holds_section:
  "(\<exists>P Q. updateFileContent cfg doc new =
      P @
      (sectionStart @ ''\<newline>'' @
       (if sectionTitle cfg \<noteq> [] then ''## '' @ sectionTitle cfg @ ''\<newline>\<newline>'' else []) @
       new @ ''\<newline>'' @ sectionEnd) @
      Q) \<and>
   includes_str (updateFileContent cfg doc new) sectionStart \<and>
   includes_str (updateFileContent cfg doc new) sectionEnd \<and>
   updateFileContent cfg' (updateFileContent cfg doc new) new' =
     substring (updateFileContent cfg doc new) 0
       (indexOf (updateFileContent cfg doc new) sectionStart) @
     (sectionStart @ ''\<newline>'' @
      (if sectionTitle cfg' \<noteq> [] then ''## '' @ sectionTitle cfg' @ ''\<newline>\<newline>'' else []) @
      new' @ ''\<newline>'' @ sectionEnd) @
     substringFrom (updateFileContent cfg doc new)
       (indexOf (updateFileContent cfg doc new) sectionEnd + int (length sectionEnd))"
proof -
  obtain P Q where out: "updateFileContent cfg doc new = P @ fullSection cfg new @ Q"
    using updateFileContent_shape by blast
  have s: "includes_str (updateFileContent cfg doc new) sectionStart"
    unfolding out includes_str_iff_sublist by (rule sublist_sectionStart_fullSection)
  have e: "includes_str (updateFileContent cfg doc new) sectionEnd"
    unfolding out includes_str_iff_sublist by (rule sublist_sectionEnd_fullSection)
  have spelled: "\<exists>P Q. updateFileContent cfg doc new =
      P @
      (sectionStart @ ''\<newline>'' @
       (if sectionTitle cfg \<noteq> [] then ''## '' @ sectionTitle cfg @ ''\<newline>\<newline>'' else []) @
       new @ ''\<newline>'' @ sectionEnd) @
      Q"
    using out unfolding fullSection_def by blast
  have "updateFileContent cfg' (updateFileContent cfg doc new) new' =
     substring (updateFileContent cfg doc new) 0
       (indexOf (updateFileContent cfg doc new) sectionStart) @
     fullSection cfg' new' @
     substringFrom (updateFileContent cfg doc new)
       (indexOf (updateFileContent cfg doc new) sectionEnd + int (length sectionEnd))"
    using s e by (simp add: updateFileContent_def [of cfg'] Let_def)
  then have again: "updateFileContent cfg' (updateFileContent cfg doc new) new' =
     substring (updateFileContent cfg doc new) 0
       (indexOf (updateFileContent cfg doc new) sectionStart) @
     (sectionStart @ ''\<newline>'' @
      (if sectionTitle cfg' \<noteq> [] then ''## '' @ sectionTitle cfg' @ ''\<newline>\<newline>'' else []) @
      new' @ ''\<newline>'' @ sectionEnd) @
     substringFrom (updateFileContent cfg doc new)
       (indexOf (updateFileContent cfg doc new) sectionEnd + int (length sectionEnd))"
    unfolding fullSection_def .
  from spelled s e again show ?thesis
    by (intro conjI)
qed

section \<open>The empty post list\<close>

text \<open>
  Claim C5, as the code has it. For the empty post list \<open>generateContent\<close> returns the
  configured message exactly when that message is not the empty string; for the empty
  message it returns the built-in text \<open>No blog posts found.\<close> instead.
\<close>

theorem generateContent_empty:
  "(noPostsMessage cfg \<noteq> [] \<longrightarrow> generateContent [] cfg = noPostsMessage cfg) \<and>
   (noPostsMessage cfg = [] \<longrightarrow> generateContent [] cfg = ''No blog posts found.'')"
  by (simp add: generateContent_def)

theorem generateContent_empty_witness:
  "noPostsMessage (exampleConfig\<lparr>noPostsMessage := ''Nothing yet''\<rparr>) \<noteq> [] \<and>
   generateContent [] (exampleConfig\<lparr>noPostsMessage := ''Nothing yet''\<rparr>) = ''Nothing yet'' \<and>
   noPostsMessage (exampleConfig\<lparr>noPostsMessage := []\<rparr>) = [] \<and>
   generateContent [] (exampleConfig\<lparr>noPostsMessage := []\<rparr>) = ''No blog posts found.''"
  using generateContent_empty [of "exampleConfig\<lparr>noPostsMessage := ''Nothing yet''\<rparr>"]
    generateContent_empty [of "exampleConfig\<lparr>noPostsMessage := []\<rparr>"]
  by simp

text \<open>
  The claim as the specification words it fails for the empty message: the result is not
  the configured (empty) message.
\<close>

theorem generateContent_empty_message_counterexample:
  "generateContent [] (exampleConfig\<lparr>noPostsMessage := []\<rparr>) \<noteq>
   noPostsMessage (exampleConfig\<lparr>noPostsMessage := []\<rparr>)"
  by (simp add: generateContent_def)

section \<open>Truncating the description\<close>

lemma substring_0: "0 \<le> n \<Longrightarrow> substring s 0 n = take (nat n) s"
  by (simp add: substring_def clampIndex_def Let_def min_def max_def)

text \<open>
  Claim C7. With a description length that is not negative: a description longer than
  the limit becomes its first \<open>descriptionLength\<close> characters followed by three dots, and a
  description within the limit is left as it is.
\<close>

theorem processPost_description:
  "0 \<le> descriptionLength cfg \<Longrightarrow>
   (descriptionLength cfg < int (length (description p)) \<longrightarrow>
      description (processPost p cfg) =
        take (nat (descriptionLength cfg)) (description p) @ ''...'') \<and>
   (int (length (description p)) \<le> descriptionLength cfg \<longrightarrow>
      description (processPost p cfg) = description p)"
  by (auto simp: processPost_def substring_0 Let_def)

theorem processPost_description_witness:
  "0 \<le> descriptionLength (exampleConfig\<lparr>descriptionLength := 4\<rparr>) \<and>
   descriptionLength (exampleConfig\<lparr>descriptionLength := 4\<rparr>) < int (length (description examplePost)) \<and>
   description (processPost examplePost (exampleConfig\<lparr>descriptionLength := 4\<rparr>)) = ''abcd...'' \<and>
   int (length (description examplePost)) \<le> descriptionLength (exampleConfig\<lparr>descriptionLength := 6\<rparr>) \<and>
   description (processPost examplePost (exampleConfig\<lparr>descriptionLength := 6\<rparr>)) = ''abcdef''"
  using processPost_description [of "exampleConfig\<lparr>descriptionLength := 4\<rparr>" examplePost]
    processPost_description [of "exampleConfig\<lparr>descriptionLength := 6\<rparr>" examplePost]
  by (simp add: exampleConfig_def examplePost_def)

section \<open>Validating the post count\<close>

lemma isInteger_Finite_iff: "isInteger (Finite q) \<longleftrightarrow> (\<exists>k::int. q = of_int k)"
  by (metis isInteger.simps(1) of_int_floor_cancel Ints_cases Ints_of_int)

text \<open>
  Claim C6. \<open>validatePostCount\<close> returns normally exactly for the integers from 1 to 12.
  Every other value raises an error, and the message names what is wrong: a value that is
  not a number (or is \<open>NaN\<close>), a number below 1, a number above 12, or a number in range
  that is not an integer.
\<close>

theorem validatePostCount_spec:
  "(validatePostCount v = Inr () \<longleftrightarrow>
      (\<exists>k::int. 1 \<le> k \<and> k \<le> 12 \<and> v = JNumber (Finite (of_int k)))) \<and>
   ((\<forall>n. v \<noteq> JNumber n) \<or> v = JNumber NaN \<longrightarrow>
      validatePostCount v = Inl ''Post count must be a valid number'') \<and>
   (v = JNumber NegInfinity \<or> (\<exists>q. v = JNumber (Finite q) \<and> q < 1) \<longrightarrow>
      validatePostCount v = Inl ''Post count must be at least 1'') \<and>
   (v = JNumber PosInfinity \<or> (\<exists>q. v = JNumber (Finite q) \<and> 12 < q) \<longrightarrow>
      validatePostCount v = Inl ''Post count cannot exceed 12'') \<and>
   ((\<exists>q. v = JNumber (Finite q) \<and> 1 \<le> q \<and> q \<le> 12 \<and> \<not> (\<exists>k::int. q = of_int k)) \<longrightarrow>
      validatePostCount v = Inl ''Post count must be an integer'')"
proof -
  have ok: "validatePostCount v = Inr () \<longleftrightarrow>
      (\<exists>k::int. 1 \<le> k \<and> k \<le> 12 \<and> v = JNumber (Finite (of_int k)))"
  proof (cases v)
    case (JNumber n)
    show ?thesis
    proof (cases n)
      case (Finite q)
      have range: "(\<not> q < 1 \<and> \<not> 12 < q \<and> (\<exists>k::int. q = of_int k)) \<longleftrightarrow>
            (\<exists>k::int. 1 \<le> k \<and> k \<le> 12 \<and> q = of_int k)"
        by (auto simp: not_less)
      have "validatePostCount (JNumber (Finite q)) = Inr () \<longleftrightarrow>
            (\<not> q < 1 \<and> \<not> 12 < q \<and> (\<exists>k::int. q = of_int k))"
        by (auto simp: validatePostCount_def isInteger_Finite_iff simp del: isInteger.simps)
      with range show ?thesis
        unfolding JNumber Finite by simp
    qed (simp_all add: JNumber validatePostCount_def)
  qed (simp_all add: validatePostCount_def)
  have nan: "(\<forall>n. v \<noteq> JNumber n) \<or> v = JNumber NaN \<longrightarrow>
      validatePostCount v = Inl ''Post count must be a valid number''"
    by (cases v) (auto simp: validatePostCount_def)
  have low: "v = JNumber NegInfinity \<or> (\<exists>q. v = JNumber (Finite q) \<and> q < 1) \<longrightarrow>
      validatePostCount v = Inl ''Post count must be at least 1''"
    by (auto simp: validatePostCount_def)
  have high: "v = JNumber PosInfinity \<or> (\<exists>q. v = JNumber (Finite q) \<and> 12 < q) \<longrightarrow>
      validatePostCount v = Inl ''Post count cannot exceed 12''"
    by (auto simp: validatePostCount_def)
  have frac: "(\<exists>q. v = JNumber (Finite q) \<and> 1 \<le> q \<and> q \<le> 12 \<and> \<not> (\<exists>k::int. q = of_int k)) \<longrightarrow>
      validatePostCount v = Inl ''Post count must be an integer''"
    by (auto simp: validatePostCount_def isInteger_Finite_iff simp del: isInteger.simps)
  from ok nan low high frac show ?thesis
    by blast
qed

theorem validatePostCount_spec_witness:
  "validatePostCount (JNumber (Finite 1)) = Inr () \<and>
   validatePostCount (JNumber (Finite 12)) = Inr () \<and>
   validatePostCount (JNumber (Finite 0)) = Inl ''Post count must be at least 1'' \<and>
   validatePostCount (JNumber (Finite 13)) = Inl ''Post count cannot exceed 12'' \<and>
   validatePostCount (JNumber (Finite (3 / 2))) = Inl ''Post count must be an integer'' \<and>
   validatePostCount (JNumber NaN) = Inl ''Post count must be a valid number'' \<and>
   validatePostCount (JString ''6'') = Inl ''Post count must be a valid number''"
proof -
  have one: "\<exists>k::int. 1 \<le> k \<and> k \<le> 12 \<and> JNumber (Finite 1) = JNumber (Finite (of_int k))"
    by (rule exI [of _ 1]) simp
  have twelve: "\<exists>k::int. 1 \<le> k \<and> k \<le> 12 \<and> JNumber (Finite 12) = JNumber (Finite (of_int k))"
    by (rule exI [of _ 12]) simp
  have zero: "\<exists>q. JNumber (Finite 0) = JNumber (Finite q) \<and> q < 1"
    by simp
  have thirteen: "\<exists>q. JNumber (Finite 13) = JNumber (Finite q) \<and> 12 < q"
    by simp
  have "\<not> (\<exists>k::int. (3 / 2 :: rat) = of_int k)"
  proof
    assume "\<exists>k::int. (3 / 2 :: rat) = of_int k"
    then obtain k :: int where "(3 / 2 :: rat) = of_int k" ..
    then have "(of_int (2 * k) :: rat) = of_int 3"
      by simp
    then have "2 * k = 3"
      by (simp only: of_int_eq_iff)
    then show False
      by presburger
  qed
  then have "JNumber (Finite (3 / 2)) = JNumber (Finite (3 / 2)) \<and>
      1 \<le> (3 / 2 :: rat) \<and> (3 / 2 :: rat) \<le> 12 \<and> \<not> (\<exists>k::int. (3 / 2 :: rat) = of_int k)"
    by simp
  then have half: "\<exists>q. JNumber (Finite (3 / 2)) = JNumber (Finite q) \<and> 1 \<le> q \<and> q \<le> 12 \<and>
      \<not> (\<exists>k::int. q = of_int k)"
    by (rule exI)
  have str: "\<forall>n. JString ''6'' \<noteq> JNumber n"
    by simp
  have r1: "validatePostCount (JNumber (Finite 1)) = Inr ()"
    using validatePostCount_spec [of "JNumber (Finite 1)", THEN conjunct1] one by blast
  have r12: "validatePostCount (JNumber (Finite 12)) = Inr ()"
    using validatePostCount_spec [of "JNumber (Finite 12)", THEN conjunct1] twelve by blast
  have r0: "validatePostCount (JNumber (Finite 0)) = Inl ''Post count must be at least 1''"
    using validatePostCount_spec [of "JNumber (Finite 0)", THEN conjunct2, THEN conjunct2,
        THEN conjunct1] zero
    by blast
  have r13: "validatePostCount (JNumber (Finite 13)) = Inl ''Post count cannot exceed 12''"
    using validatePostCount_spec [of "JNumber (Finite 13)", THEN conjunct2, THEN conjunct2,
        THEN conjunct2, THEN conjunct1] thirteen
    by blast
  have rh: "validatePostCount (JNumber (Finite (3 / 2))) = Inl ''Post count must be an integer''"
    using validatePostCount_spec [of "JNumber (Finite (3 / 2))", THEN conjunct2, THEN conjunct2,
        THEN conjunct2, THEN conjunct2] half
    by blast
  have rn: "validatePostCount (JNumber NaN) = Inl ''Post count must be a valid number''"
    using validatePostCount_spec [of "JNumber NaN", THEN conjunct2, THEN conjunct1]
    by blast
  have rs: "validatePostCount (JString ''6'') = Inl ''Post count must be a valid number''"
    using validatePostCount_spec [of "JString ''6''", THEN conjunct2, THEN conjunct1] str
    by blast
  from r1 r12 r0 r13 rh rn rs show ?thesis
    by (simp only: simp_thms)
qed

section \<open>Formatting a date never throws\<close>

text \<open>
  Claim C8. Whatever the moment library does (each of its operations may throw),
  \<open>formatDate\<close> returns a string and no exception leaves it. A missing date (a falsy
  value: \<open>undefined\<close>, \<open>null\<close>, the empty string) gives \<open>Unknown date\<close>; a date that is
  there but that the library reports as not valid gives \<open>Invalid date\<close>.
\<close>

theorem formatDate_total:
  "(\<exists>s. formatDate lib date fmt = Inr s) \<and>
   (\<not> truthy date \<longrightarrow> formatDate lib date fmt = Inr ''Unknown date'') \<and>
   (truthy date \<and> (\<exists>m. moment lib date = Inr m \<and> isValid lib m = Inr False) \<longrightarrow>
      formatDate lib date fmt = Inr ''Invalid date'')"
  by (auto simp: formatDate_def formatDate_try_def bindE_def split: sum.splits)

theorem formatDate_total_witness:
  "\<not> truthy JUndefined \<and> \<not> truthy JNull \<and> \<not> truthy (JString []) \<and>
   formatDate exampleMoment JUndefined ''MMM DD, YYYY'' = Inr ''Unknown date'' \<and>
   formatDate exampleMoment JNull ''MMM DD, YYYY'' = Inr ''Unknown date'' \<and>
   formatDate exampleMoment (JString []) ''MMM DD, YYYY'' = Inr ''Unknown date'' \<and>
   truthy (JString ''garbage'') \<and>
   moment exampleMoment (JString ''garbage'') = Inr ''garbage'' \<and>
   isValid exampleMoment ''garbage'' = Inr False \<and>
   formatDate exampleMoment (JString ''garbage'') ''MMM DD, YYYY'' = Inr ''Invalid date''"
proof -
  have m: "moment exampleMoment (JString ''garbage'') = Inr ''garbage''"
    by (simp add: exampleMoment_def)
  have v: "isValid exampleMoment ''garbage'' = Inr False"
    by (simp add: exampleMoment_def)
  have t: "truthy (JString ''garbage'')"
    by simp
  from m v have ex: "\<exists>m. moment exampleMoment (JString ''garbage'') = Inr m \<and>
      isValid exampleMoment m = Inr False"
    by blast
  show ?thesis
    using formatDate_total [of exampleMoment JUndefined "''MMM DD, YYYY''"]
      formatDate_total [of exampleMoment JNull "''MMM DD, YYYY''"]
      formatDate_total [of exampleMoment "JString []" "''MMM DD, YYYY''"]
      formatDate_total [of exampleMoment "JString ''garbage''" "''MMM DD, YYYY''"]
      m v t ex
    by simp
qed

section \<open>Replacing the delimited section\<close>

text \<open>
  Claim C3, as the code has it. For a document \<open>X + start marker + old + end marker + Y\<close>
  where \<open>X\<close> and \<open>Y\<close> hold neither marker and \<open>old\<close> holds no end marker,
  \<open>updateFileContent\<close> returns exactly \<open>X\<close>, the new section (start marker, the heading
  \<open>## title\<close> when the title is not empty, the block, end marker) and \<open>Y\<close>: the text before
  and after the section is kept as it is.
\<close>

theorem updateFileContent_preserves_outside:
  assumes "\<not> includes_str X sectionStart" and "\<not> includes_str X sectionEnd"
      and "\<not> includes_str Y sectionStart" and "\<not> includes_str Y sectionEnd"
      and "\<not> includes_str old sectionEnd"
  shows "updateFileContent cfg (X @ sectionStart @ old @ sectionEnd @ Y) new =
         X @
         (sectionStart @ ''\<newline>'' @
          (if sectionTitle cfg \<noteq> [] then ''## '' @ sectionTitle cfg @ ''\<newline>\<newline>'' else []) @
          new @ ''\<newline>'' @ sectionEnd) @
         Y"
proof -
  have a: "\<not> sublist sectionStart (X @ butlast sectionStart)"
    using assms(1) by (intro no_start_before) (simp add: includes_str_iff_sublist)
  have "\<not> sublist sectionEnd (old @ butlast sectionEnd)"
    using assms(5) by (intro no_end_before) (simp add: includes_str_iff_sublist)
  then have b: "\<not> sublist sectionEnd (X @ sectionStart @ old @ butlast sectionEnd)"
    using assms(2) by (simp add: no_end_across_start includes_str_iff_sublist)
  from a b have "updateFileContent cfg (X @ sectionStart @ old @ sectionEnd @ Y) new =
      X @ fullSection cfg new @ Y"
    by (rule updateFileContent_replace)
  then show ?thesis
    by (simp add: fullSection_def)
qed

theorem updateFileContent_preserves_outside_witness:
  "\<not> includes_str ''# Readme'' sectionStart \<and> \<not> includes_str ''# Readme'' sectionEnd \<and>
   \<not> includes_str ''footer'' sectionStart \<and> \<not> includes_str ''footer'' sectionEnd \<and>
   \<not> includes_str ''old posts'' sectionEnd \<and>
   updateFileContent exampleConfig
     (''# Readme'' @ sectionStart @ ''old posts'' @ sectionEnd @ ''footer'') ''new posts'' =
   ''# Readme'' @
   (sectionStart @ ''\<newline>'' @ ''## Latest Blog Posts\<newline>\<newline>'' @ ''new posts'' @ ''\<newline>'' @ sectionEnd) @
   ''footer''"
proof -
  have h: "\<not> includes_str ''# Readme'' sectionStart" "\<not> includes_str ''# Readme'' sectionEnd"
    "\<not> includes_str ''footer'' sectionStart" "\<not> includes_str ''footer'' sectionEnd"
    "\<not> includes_str ''old posts'' sectionEnd"
    by (simp_all add: includes_str_iff_sublist sublist_Cons_right sectionStart_def sectionEnd_def)
  have t: "sectionTitle exampleConfig = ''Latest Blog Posts''"
    by (simp add: exampleConfig_def)
  show ?thesis
    using updateFileContent_preserves_outside [OF h, of exampleConfig "''new posts''"] h t
    by simp
qed

text \<open>
  Without the condition on \<open>old\<close> the claim fails: \<open>indexOf\<close> finds the first end marker,
  so when the old section holds one, what follows it stays in the document.
\<close>

theorem old_section_with_end_marker_counterexample:
  "\<not> includes_str [] sectionStart \<and> \<not> includes_str [] sectionEnd \<and>
   updateFileContent exampleConfig ([] @ sectionStart @ sectionEnd @ sectionEnd @ []) ''x'' \<noteq>
   [] @ fullSection exampleConfig ''x'' @ []"
proof -
  have a: "\<not> sublist sectionStart ([] @ butlast sectionStart)"
    using not_sublist_butlast [OF markers_nonempty(1)] by simp
  have b: "\<not> sublist sectionEnd ([] @ sectionStart @ [] @ butlast sectionEnd)"
    using no_end_across_start [of "[]" "butlast sectionEnd"]
      not_sublist_butlast [OF markers_nonempty(2)] markers_nonempty(2)
    by simp
  have "updateFileContent exampleConfig ([] @ sectionStart @ [] @ sectionEnd @ sectionEnd) ''x'' =
      [] @ fullSection exampleConfig ''x'' @ sectionEnd"
    using a b by (rule updateFileContent_replace)
  then show ?thesis
    using markers_nonempty by (simp add: includes_str_iff_sublist)
qed

section \<open>Which branch is taken\<close>

text \<open>
  Where the code does what its comments say. When either marker is missing from the
  existing text, \<open>updateFileContent\<close> appends two newlines, the new section and a newline,
  and the existing text is a prefix of the result. When both markers occur and the first
  start marker comes before the first end marker, the text from the first start marker
  through the first end marker is replaced by the new section, and the text before and
  after it is kept.
\<close>

lemma updateFileContent_branches:
  "(\<not> includes_str doc sectionStart \<or> \<not> includes_str doc sectionEnd \<longrightarrow>
      updateFileContent cfg doc new =
        doc @ ''\<newline>\<newline>'' @ fullSection cfg new @ ''\<newline>'') \<and>
   (includes_str doc sectionStart \<and> includes_str doc sectionEnd \<and>
    indexOf doc sectionStart < indexOf doc sectionEnd \<longrightarrow>
      (\<exists>X M Y. doc = X @ sectionStart @ M @ sectionEnd @ Y \<and>
         int (length X) = indexOf doc sectionStart \<and>
         int (length (X @ sectionStart @ M)) = indexOf doc sectionEnd \<and>
         updateFileContent cfg doc new = X @ fullSection cfg new @ Y))"
proof (intro conjI impI)
  assume "\<not> includes_str doc sectionStart \<or> \<not> includes_str doc sectionEnd"
  then show "updateFileContent cfg doc new =
      doc @ ''\<newline>\<newline>'' @ fullSection cfg new @ ''\<newline>''"
    by (rule updateFileContent_append)
next
  assume a: "includes_str doc sectionStart \<and> includes_str doc sectionEnd \<and>
    indexOf doc sectionStart < indexOf doc sectionEnd"
  then obtain i j where s: "firstIndex sectionStart doc = Some i"
    and e: "firstIndex sectionEnd doc = Some j"
    by (auto simp: includes_str_def)
  with a have lt: "i < j"
    by (simp add: indexOf_Some)
  from first_markers_decompose [OF s e lt] obtain M Y where
    d: "doc = take i doc @ sectionStart @ M @ sectionEnd @ Y"
      "j = i + length sectionStart + length M"
      "\<not> sublist sectionStart (take i doc @ butlast sectionStart)"
      "\<not> sublist sectionEnd (take i doc @ sectionStart @ M @ butlast sectionEnd)"
    by blast
  have i: "i \<le> length doc"
    using firstIndex_SomeD [OF markers_nonempty(1) s] by simp
  have "updateFileContent cfg (take i doc @ sectionStart @ M @ sectionEnd @ Y) new =
      take i doc @ fullSection cfg new @ Y"
    using d(3,4) by (rule updateFileContent_replace)
  with d(1) have out: "updateFileContent cfg doc new = take i doc @ fullSection cfg new @ Y"
    by simp
  have "int (length (take i doc)) = indexOf doc sectionStart"
    using i by (simp add: indexOf_Some [OF s])
  moreover have "int (length (take i doc @ sectionStart @ M)) = indexOf doc sectionEnd"
    using i d(2) by (simp add: indexOf_Some [OF e])
  ultimately show "\<exists>X M Y. doc = X @ sectionStart @ M @ sectionEnd @ Y \<and>
         int (length X) = indexOf doc sectionStart \<and>
         int (length (X @ sectionStart @ M)) = indexOf doc sectionEnd \<and>
         updateFileContent cfg doc new = X @ fullSection cfg new @ Y"
    using d(1) out by blast
qed

text \<open>
  Claim C4 does not hold of the code. The test before replacing is only that both markers
  occur somewhere in the text; their order is not looked at. For the document
  \<open>END keep START\<close>, where no end marker follows the start marker, the claim asks for the
  section to be appended. The code instead keeps everything before the start marker,
  adds the section, and then repeats everything after the end marker: the text between
  the two markers is there twice, the old start marker stays, and a second run on the
  result adds the section and that text once more.
\<close>

theorem updateFileContent_end_marker_first:
  "includes_str (sectionEnd @ ''keep'' @ sectionStart) sectionStart \<and>
   includes_str (sectionEnd @ ''keep'' @ sectionStart) sectionEnd \<and>
   \<not> includes_str
      (substringFrom (sectionEnd @ ''keep'' @ sectionStart)
         (indexOf (sectionEnd @ ''keep'' @ sectionStart) sectionStart + int (length sectionStart)))
      sectionEnd \<and>
   updateFileContent exampleConfig (sectionEnd @ ''keep'' @ sectionStart) ''x'' =
     sectionEnd @ ''keep'' @
     (sectionStart @ ''\<newline>## Latest Blog Posts\<newline>\<newline>x\<newline>'' @ sectionEnd) @
     ''keep'' @ sectionStart \<and>
   updateFileContent exampleConfig (sectionEnd @ ''keep'' @ sectionStart) ''x'' \<noteq>
     (sectionEnd @ ''keep'' @ sectionStart) @ ''\<newline>\<newline>'' @
     (sectionStart @ ''\<newline>## Latest Blog Posts\<newline>\<newline>x\<newline>'' @ sectionEnd) @
     ''\<newline>'' \<and>
   updateFileContent exampleConfig
     (updateFileContent exampleConfig (sectionEnd @ ''keep'' @ sectionStart) ''x'') ''x'' =
     sectionEnd @ ''keep'' @
     (sectionStart @ ''\<newline>## Latest Blog Posts\<newline>\<newline>x\<newline>'' @ sectionEnd) @
     ''keep'' @
     (sectionStart @ ''\<newline>## Latest Blog Posts\<newline>\<newline>x\<newline>'' @ sectionEnd) @
     ''keep'' @ sectionStart"
  by code_simp

section \<open>Merging twice\<close>

text \<open>
  Claim C2, as the code has it. Merging the same block a second time changes nothing,
  provided that the starting document holds neither marker or has its first start marker
  before its first end marker, and that neither the section title nor the block holds the
  end marker.
\<close>

theorem updateFileContent_idempotent:
  assumes doc: "(\<not> includes_str doc sectionStart \<and> \<not> includes_str doc sectionEnd) \<or>
      (includes_str doc sectionStart \<and> includes_str doc sectionEnd \<and>
       indexOf doc sectionStart < indexOf doc sectionEnd)"
    and title: "\<not> includes_str (sectionTitle cfg) sectionEnd"
    and block: "\<not> includes_str new sectionEnd"
  shows "updateFileContent cfg (updateFileContent cfg doc new) new = updateFileContent cfg doc new"
proof -
  let ?B = "''\<newline>'' @
      (if sectionTitle cfg \<noteq> [] then ''## '' @ sectionTitle cfg @ ''\<newline>\<newline>'' else []) @
      new @ ''\<newline>''"
  have full: "fullSection cfg new = sectionStart @ ?B @ sectionEnd"
    by (rule fullSection_body)
  have body: "\<not> sublist sectionEnd (?B @ butlast sectionEnd)"
    using title block by (intro no_end_in_body) (simp_all add: includes_str_iff_sublist)
  have again: "updateFileContent cfg (X @ fullSection cfg new @ Y) new = X @ fullSection cfg new @ Y"
    if X: "\<not> sublist sectionStart (X @ butlast sectionStart)" "\<not> sublist sectionEnd X" for X Y
  proof -
    have "\<not> sublist sectionEnd (X @ sectionStart @ ?B @ butlast sectionEnd)"
      using X(2) body by (simp only: no_end_across_start) simp
    with X(1) have "updateFileContent cfg (X @ sectionStart @ ?B @ sectionEnd @ Y) new =
        X @ fullSection cfg new @ Y"
      by (rule updateFileContent_replace)
    then show ?thesis
      by (simp only: full append_assoc)
  qed
  from doc show ?thesis
  proof
    assume none: "\<not> includes_str doc sectionStart \<and> \<not> includes_str doc sectionEnd"
    then have out: "updateFileContent cfg doc new =
        (doc @ ''\<newline>\<newline>'') @ fullSection cfg new @ ''\<newline>''"
      by (simp add: updateFileContent_append)
    have "sublist sectionStart ((doc @ ''\<newline>'') @ CHR ''\<newline>'' # butlast sectionStart) \<longleftrightarrow>
        sublist sectionStart (doc @ ''\<newline>'') \<or> sublist sectionStart (butlast sectionStart)"
      by (rule sublist_sep) (rule newline_notin_markers(1))
    moreover have "sublist sectionStart (doc @ CHR ''\<newline>'' # []) \<longleftrightarrow>
        sublist sectionStart doc \<or> sublist sectionStart []"
      by (rule sublist_sep) (rule newline_notin_markers(1))
    ultimately have a: "\<not> sublist sectionStart ((doc @ ''\<newline>\<newline>'') @ butlast sectionStart)"
      using none markers_nonempty(1) not_sublist_butlast [OF markers_nonempty(1)]
      by (simp add: includes_str_iff_sublist)
    have "sublist sectionEnd ((doc @ ''\<newline>'') @ CHR ''\<newline>'' # []) \<longleftrightarrow>
        sublist sectionEnd (doc @ ''\<newline>'') \<or> sublist sectionEnd []"
      by (rule sublist_sep) (rule newline_notin_markers(2))
    moreover have "sublist sectionEnd (doc @ CHR ''\<newline>'' # []) \<longleftrightarrow>
        sublist sectionEnd doc \<or> sublist sectionEnd []"
      by (rule sublist_sep) (rule newline_notin_markers(2))
    ultimately have b: "\<not> sublist sectionEnd (doc @ ''\<newline>\<newline>'')"
      using none markers_nonempty(2) by (simp add: includes_str_iff_sublist)
    from again [OF a b] out show ?thesis
      by simp
  next
    assume both: "includes_str doc sectionStart \<and> includes_str doc sectionEnd \<and>
       indexOf doc sectionStart < indexOf doc sectionEnd"
    then obtain i j where s: "firstIndex sectionStart doc = Some i"
      and e: "firstIndex sectionEnd doc = Some j"
      by (auto simp: includes_str_def)
    with both have lt: "i < j"
      by (simp add: indexOf_Some)
    from first_markers_decompose [OF s e lt] obtain M Y where
      d: "doc = take i doc @ sectionStart @ M @ sectionEnd @ Y"
        "\<not> sublist sectionStart (take i doc @ butlast sectionStart)"
        "\<not> sublist sectionEnd (take i doc @ sectionStart @ M @ butlast sectionEnd)"
      by blast
    have "updateFileContent cfg (take i doc @ sectionStart @ M @ sectionEnd @ Y) new =
        take i doc @ fullSection cfg new @ Y"
      using d(2,3) by (rule updateFileContent_replace)
    with d(1) have out: "updateFileContent cfg doc new = take i doc @ fullSection cfg new @ Y"
      by simp
    have "\<not> sublist sectionEnd (take i doc)"
      using d(3) by (simp add: no_end_across_start)
    from again [OF d(2) this] out show ?thesis
      by simp
  qed
qed


theorem updateFileContent_idempotent_witness:
  "\<not> includes_str ''# Readme'' sectionStart \<and> \<not> includes_str ''# Readme'' sectionEnd \<and>
   includes_str exampleDocument sectionStart \<and> includes_str exampleDocument sectionEnd \<and>
   indexOf exampleDocument sectionStart < indexOf exampleDocument sectionEnd \<and>
   \<not> includes_str (sectionTitle exampleConfig) sectionEnd \<and>
   \<not> includes_str ''new posts'' sectionEnd \<and>
   updateFileContent exampleConfig (updateFileContent exampleConfig ''# Readme'' ''new posts'')
     ''new posts'' = updateFileContent exampleConfig ''# Readme'' ''new posts'' \<and>
   updateFileContent exampleConfig (updateFileContent exampleConfig exampleDocument ''new posts'')
     ''new posts'' = updateFileContent exampleConfig exampleDocument ''new posts''"
  using updateFileContent_idempotent [of "''# Readme''" exampleConfig "''new posts''"]
    updateFileContent_idempotent [of exampleDocument exampleConfig "''new posts''"]
    plain_text_markers exampleDocument_markers example_block_markers
  by blast

text \<open>
  A document with a start marker and no end marker: the first merge appends a section, the
  second one replaces everything from the old start marker on, so the two results differ.
\<close>

theorem unmatched_start_marker_counterexample:
  "updateFileContent exampleConfig (updateFileContent exampleConfig sectionStart ''x'') ''x'' \<noteq>
   updateFileContent exampleConfig sectionStart ''x''"
  by code_simp

section \<open>Rendering leaves its input alone\<close>

lemma processPost_heap_frame:
  "length (snd (processPost_heap h r cfg)) = Suc (length h) \<and>
   take (length h) (snd (processPost_heap h r cfg)) = h \<and>
   fst (processPost_heap h r cfg) = length h"
  by (simp add: processPost_heap_def allocate_def Let_def)

lemma processPost_heap_value:
  "snd (processPost_heap h r cfg) ! fst (processPost_heap h r cfg) = processPost (h ! r) cfg"
  by (simp add: processPost_heap_def allocate_def processPost_def Let_def)

lemma mapProcessPost_frame:
  "length h \<le> length (snd (mapProcessPost h rs cfg)) \<and>
   take (length h) (snd (mapProcessPost h rs cfg)) = h"
proof (induction rs arbitrary: h)
  case Nil
  show ?case by simp
next
  case (Cons r rs)
  let ?h1 = "snd (processPost_heap h r cfg)"
  let ?h2 = "snd (mapProcessPost ?h1 rs cfg)"
  have eq: "snd (mapProcessPost h (r # rs) cfg) = ?h2"
    by (simp add: split_beta Let_def)
  from processPost_heap_frame [of h r cfg]
  have f1: "length ?h1 = Suc (length h)" "take (length h) ?h1 = h"
    by simp_all
  from Cons.IH [of ?h1]
  have f2: "length ?h1 \<le> length ?h2" "take (length ?h1) ?h2 = ?h1"
    by simp_all
  have "take (length h) ?h2 = take (length h) (take (length ?h1) ?h2)"
    using f1(1) by (simp add: min_def)
  with f1 f2 show ?case
    unfolding eq by simp
qed

lemma mapProcessPost_values:
  "\<forall>r \<in> set rs. r < length h \<Longrightarrow>
   map (\<lambda>r. snd (mapProcessPost h rs cfg) ! r) (fst (mapProcessPost h rs cfg)) =
   map (\<lambda>r. processPost (h ! r) cfg) rs"
proof (induction rs arbitrary: h)
  case Nil
  show ?case by simp
next
  case (Cons r rs)
  let ?h1 = "snd (processPost_heap h r cfg)"
  let ?r1 = "fst (processPost_heap h r cfg)"
  let ?h2 = "snd (mapProcessPost ?h1 rs cfg)"
  from processPost_heap_frame [of h r cfg]
  have f1: "length ?h1 = Suc (length h)" "take (length h) ?h1 = h" "?r1 = length h"
    by simp_all
  from mapProcessPost_frame [of ?h1 rs cfg]
  have f2: "length ?h1 \<le> length ?h2" "take (length ?h1) ?h2 = ?h1"
    by simp_all
  have old: "?h1 ! a = h ! a" if "a < length h" for a
    using that f1(2) by (metis nth_take)
  have new: "?h2 ! a = ?h1 ! a" if "a < length ?h1" for a
    using that f2(2) by (metis nth_take)
  have "\<forall>a \<in> set rs. a < length ?h1"
    using Cons.prems f1(1) by auto
  from Cons.IH [OF this]
  have ih: "map (\<lambda>r. ?h2 ! r) (fst (mapProcessPost ?h1 rs cfg)) =
      map (\<lambda>r. processPost (?h1 ! r) cfg) rs" .
  have "map (\<lambda>r. processPost (?h1 ! r) cfg) rs = map (\<lambda>r. processPost (h ! r) cfg) rs"
    using Cons.prems old by simp
  with ih have tl: "map (\<lambda>r. ?h2 ! r) (fst (mapProcessPost ?h1 rs cfg)) =
      map (\<lambda>r. processPost (h ! r) cfg) rs"
    by simp
  have "?h2 ! ?r1 = ?h1 ! ?r1"
    using new f1 by simp
  then have hd: "?h2 ! ?r1 = processPost (h ! r) cfg"
    by (simp add: processPost_heap_value)
  show ?case
    using hd tl by (simp add: split_beta Let_def)
qed

lemma generateContent_heap_result:
  "\<forall>r \<in> set posts. r < length h \<Longrightarrow>
   fst (generateContent_heap h posts cfg) = generateContent (map (\<lambda>r. h ! r) posts) cfg"
  using mapProcessPost_values [of posts h cfg]
  by (simp add: generateContent_heap_def generateContent_def split_beta Let_def comp_def)

text \<open>
  Claim C10. \<open>generateContent\<close> only adds objects to the store: every object that was
  there before the call, so every post it was given, is the same afterwards, field by
  field. (\<open>generateContent_heap_result\<close> above says that the text returned is the one
  \<open>generateContent\<close> computes from the posts' values.)
\<close>

theorem generateContent_heap_frame:
  "length h \<le> length (snd (generateContent_heap h posts cfg)) \<and>
   take (length h) (snd (generateContent_heap h posts cfg)) = h"
  using mapProcessPost_frame [of h posts cfg]
  by (simp add: generateContent_heap_def split_beta Let_def)

section \<open>Post text in the HTML layouts\<close>

lemma trim_keep:
  assumes "B \<noteq> []" and "\<not> isWhiteSpace (hd B)" and "\<not> isWhiteSpace (last B)"
  shows "trim B = B"
proof -
  from assms(1,2) have a: "dropWhile isWhiteSpace B = B"
    by (cases B) simp_all
  from assms(1,3) have "dropWhile isWhiteSpace (rev B) = rev B"
    by (cases B rule: rev_cases) simp_all
  with a show ?thesis
    by (simp add: trim_def)
qed

lemma trim_template:
  assumes "B \<noteq> []" and "hd B = CHR ''<''" and "last B = CHR ''>''"
  shows "trim (''\<newline>'' @ B) = B"
proof -
  have "trim (''\<newline>'' @ B) = trim B"
    by (simp add: trim_def isWhiteSpace_def)
  also have "trim B = B"
    using assms by (intro trim_keep) (simp_all add: isWhiteSpace_def)
  finally show ?thesis .
qed

lemma sublist_here: "sublist x (x @ B)"
  by simp

lemma sublist_skip: "sublist x B \<Longrightarrow> sublist x (A @ B)"
  by (metis sublist_append)

lemma sublist_left: "sublist x A \<Longrightarrow> sublist x (A @ B)"
  by (metis sublist_append)

lemma title_in_cardOf: "sublist (title p) (cardOf cfg p)"
  unfolding cardOf_def
  apply (subst trim_template)
     apply simp
    apply simp
   apply simp
  apply (fast intro: sublist_here sublist_skip sublist_left)
  done

lemma title_in_stackedCardOf: "sublist (title p) (stackedCardOf cfg imagePosition p)"
  unfolding stackedCardOf_def Let_def
  apply (subst trim_template)
     apply simp
    apply simp
   apply simp
  apply (fast intro: sublist_here sublist_skip sublist_left)
  done

lemma title_in_listItemOf: "sublist (title p) (listItemOf p)"
  unfolding listItemOf_def
  by (fast intro: sublist_here sublist_skip sublist_left)

lemma title_in_tableRowOf: "sublist (title p) (tableRowOf cfg p)"
  unfolding tableRowOf_def Let_def
  by (fast intro: sublist_here sublist_skip sublist_left)

lemma sublist_join: "x \<in> set xs \<Longrightarrow> sublist x (join sep xs)"
proof (induction sep xs rule: join.induct)
  case (1 sep)
  then show ?case by simp
next
  case (2 sep y)
  then show ?case by simp
next
  case (3 sep y z zs)
  show ?case
  proof (cases "x = y")
    case True
    then show ?thesis by (simp add: sublist_here)
  next
    case False
    with 3 have "sublist x (join sep (z # zs))" by simp
    then have "sublist x (y @ sep @ join sep (z # zs))"
      by (intro sublist_skip)
    then show ?thesis
      by (simp only: join.simps)
  qed
qed

lemma rows_in_generateTable: "sublist (join '','' (map (tableRowOf cfg) posts)) (generateTable posts cfg)"
  unfolding generateTable_def Let_def
  apply (subst trim_keep)
     apply simp
    apply (simp add: isWhiteSpace_def)
   apply (simp add: isWhiteSpace_def)
  apply (fast intro: sublist_here sublist_skip sublist_left)
  done

lemma title_processPost: "title (processPost p cfg) = title p"
  by (simp add: processPost_def Let_def)

lemma title_in_renderProcessed:
  assumes "q \<in> set processed"
  shows "sublist (title q) (renderProcessed processed cfg)"
proof -
  have card: "sublist (title q) (generateCards processed cfg)"
    unfolding generateCards_def
    using assms sublist_join [of "cardOf cfg q" "map (cardOf cfg) processed"] title_in_cardOf [of q cfg]
    by (auto intro: sublist_order.order.trans)
  have stacked: "sublist (title q) (generateStackedCards processed cfg pos)" for pos
    unfolding generateStackedCards_def
    using assms sublist_join [of "stackedCardOf cfg pos q" "map (stackedCardOf cfg pos) processed"]
      title_in_stackedCardOf [of q cfg pos]
    by (auto intro: sublist_order.order.trans)
  have lst: "sublist (title q) (generateList processed cfg)"
    unfolding generateList_def
    using assms sublist_join [of "listItemOf q" "map listItemOf processed"] title_in_listItemOf [of q]
    by (auto intro: sublist_order.order.trans)
  have "sublist (title q) (join '','' (map (tableRowOf cfg) processed))"
    using assms sublist_join [of "tableRowOf cfg q" "map (tableRowOf cfg) processed"]
      title_in_tableRowOf [of q cfg]
    by (auto intro: sublist_order.order.trans)
  then have table: "sublist (title q) (generateTable processed cfg)"
    using rows_in_generateTable [of cfg processed] by (rule sublist_order.order.trans)
  from card stacked lst table show ?thesis
    by (simp add: renderProcessed_def)
qed

lemma title_in_generateContent:
  assumes "p \<in> set posts"
  shows "sublist (title p) (generateContent posts cfg)"
proof -
  from assms have ne: "posts \<noteq> []" by auto
  from assms have "processPost p cfg \<in> set (map (\<lambda>p. processPost p cfg) posts)"
    by simp
  from title_in_renderProcessed [OF this, of cfg] show ?thesis
    using ne by (simp add: generateContent_def title_processPost)
qed

lemma description_in_cardOf: "sublist (description p) (cardOf cfg p)"
  unfolding cardOf_def
  apply (subst trim_template)
     apply simp
    apply simp
   apply simp
  apply (fast intro: sublist_here sublist_skip sublist_left)
  done

lemma description_in_stackedCardOf: "sublist (description p) (stackedCardOf cfg imagePosition p)"
  unfolding stackedCardOf_def Let_def
  apply (subst trim_template)
     apply simp
    apply simp
   apply simp
  apply (subst trim_template)
     apply simp
    apply simp
   apply simp
  apply (fast intro: sublist_here sublist_skip sublist_left)
  done

lemma description_in_tableRowOf: "sublist (description p) (tableRowOf cfg p)"
  unfolding tableRowOf_def Let_def
  by (fast intro: sublist_here sublist_skip sublist_left)

lemma description_in_renderProcessed:
  assumes "q \<in> set processed" and "displayFormat cfg \<noteq> ''list''"
  shows "sublist (description q) (renderProcessed processed cfg)"
proof -
  have card: "sublist (description q) (generateCards processed cfg)"
    unfolding generateCards_def
    using assms(1) sublist_join [of "cardOf cfg q" "map (cardOf cfg) processed"]
      description_in_cardOf [of q cfg]
    by (auto intro: sublist_order.order.trans)
  have stacked: "sublist (description q) (generateStackedCards processed cfg pos)" for pos
    unfolding generateStackedCards_def
    using assms(1) sublist_join [of "stackedCardOf cfg pos q" "map (stackedCardOf cfg pos) processed"]
      description_in_stackedCardOf [of q cfg pos]
    by (auto intro: sublist_order.order.trans)
  have "sublist (description q) (join '','' (map (tableRowOf cfg) processed))"
    using assms(1) sublist_join [of "tableRowOf cfg q" "map (tableRowOf cfg) processed"]
      description_in_tableRowOf [of q cfg]
    by (auto intro: sublist_order.order.trans)
  then have table: "sublist (description q) (generateTable processed cfg)"
    using rows_in_generateTable [of cfg processed] by (rule sublist_order.order.trans)
  from card stacked table assms(2) show ?thesis
    by (simp add: renderProcessed_def)
qed

lemma description_in_generateContent:
  assumes "p \<in> set posts" and "displayFormat cfg \<noteq> ''list''"
  shows "sublist (description (processPost p cfg)) (generateContent posts cfg)"
proof -
  from assms have ne: "posts \<noteq> []" by auto
  from assms have "processPost p cfg \<in> set (map (\<lambda>p. processPost p cfg) posts)"
    by simp
  from description_in_renderProcessed [OF this assms(2)] show ?thesis
    using ne by (simp add: generateContent_def)
qed

text \<open>
  Claim C1 does not hold of the code: the layouts interpolate \<open>post.title\<close> and
  \<open>post.description\<close> as they are, and \<open>escapeHtml\<close> is never called on this path. For
  a post whose title holds \<open><script>\<close> and whose description holds an \<open>img\<close> tag, the
  output of each of the four HTML layouts holds both as raw markup, where the escaped
  title would read \<open>&lt;script&gt;\<close>.
\<close>

theorem generateContent_text_raw:
  "escapeHtml ''<script>'' = ''&lt;script&gt;'' \<and>
   includes_str (title scriptPost) ''<script>'' \<and>
   includes_str (generateContent [scriptPost] (exampleConfig\<lparr>displayFormat := ''card''\<rparr>)) ''<script>'' \<and>
   includes_str (generateContent [scriptPost] (exampleConfig\<lparr>displayFormat := ''stacked-left''\<rparr>)) ''<script>'' \<and>
   includes_str (generateContent [scriptPost] (exampleConfig\<lparr>displayFormat := ''stacked-right''\<rparr>)) ''<script>'' \<and>
   includes_str (generateContent [scriptPost] (exampleConfig\<lparr>displayFormat := ''table''\<rparr>)) ''<script>'' \<and>
   includes_str (generateContent [scriptPost] (exampleConfig\<lparr>displayFormat := ''card''\<rparr>)) ''<img src=x onerror=alert(2)>'' \<and>
   includes_str (generateContent [scriptPost] (exampleConfig\<lparr>displayFormat := ''stacked-left''\<rparr>)) ''<img src=x onerror=alert(2)>'' \<and>
   includes_str (generateContent [scriptPost] (exampleConfig\<lparr>displayFormat := ''stacked-right''\<rparr>)) ''<img src=x onerror=alert(2)>'' \<and>
   includes_str (generateContent [scriptPost] (exampleConfig\<lparr>displayFormat := ''table''\<rparr>)) ''<img src=x onerror=alert(2)>''"
proof -
  have e: "escapeHtml ''<script>'' = ''&lt;script&gt;''"
    by (simp add: escapeHtml_def htmlEscapes_def)
  have t: "sublist ''<script>'' (title scriptPost)"
    by (simp add: scriptPost_def sublist_Cons_right)
  have tr: "sublist ''<script>'' (generateContent [scriptPost] cfg)" for cfg
    using t title_in_generateContent [of scriptPost "[scriptPost]" cfg]
    by (auto intro: sublist_order.order.trans)
  have d: "description (processPost scriptPost cfg) = ''<img src=x onerror=alert(2)>''"
    if "descriptionLength cfg = 200" for cfg
    using that by (simp add: processPost_def scriptPost_def Let_def)
  have dr: "sublist ''<img src=x onerror=alert(2)>'' (generateContent [scriptPost] cfg)"
    if "descriptionLength cfg = 200" "displayFormat cfg \<noteq> ''list''" for cfg
    using description_in_generateContent [of scriptPost "[scriptPost]" cfg] d that
    by simp
  have c: "descriptionLength (exampleConfig\<lparr>displayFormat := f\<rparr>) = 200" for f
    by (simp add: exampleConfig_def)
  from e t tr dr c show ?thesis
    by (simp add: includes_str_iff_sublist)
qed

end
